theory Spec2Isabelle
  imports Main "HOL-Library.AList" "HOL-Library.Sublist"
begin

section \<open>The sources editor of colrev's web UI\<close>

text \<open>
  A shallow embedding of the five event handlers of
  \<^verbatim>\<open>src/colrev/ui_web/src/components/sources/SourcesEditor.tsx\<close>.
  The handlers mutate objects that the parent's array refers to and hand a new array to
  the parent, so objects and arrays live in an explicit heap and are named by addresses:
  two records with equal fields at different addresses are different records.
\<close>

subsection \<open>Values, objects, arrays\<close>

type_synonym ref = nat
type_synonym aref = nat

text \<open>
  The values of the types the component handles: \<^verbatim>\<open>undefined\<close>, a string, or a
  reference to an object. An object is either writable, \<open>Ref\<close>, or read-only, \<open>Frozen\<close>
  (as \<^verbatim>\<open>Object.freeze\<close> leaves it). The component neither freezes nor thaws an
  object, so the two kinds are kept in two heaps and no object changes its kind. The
  operator \<^verbatim>\<open>!==\<close> on these values is inequality of \<open>val\<close>: strings compare by content,
  objects by address.
\<close>

datatype val = Undefined | Str string | Ref ref | Frozen ref

text \<open>
  An object is the list of its own data properties in insertion order. Every object
  inherits from \<^verbatim>\<open>Object.prototype\<close>, of which the model knows one thing: the accessor
  \<^verbatim>\<open>__proto__\<close>, which an assignment reaches when the object has no own property of
  that name.
\<close>

type_synonym props = "(string \<times> val) list"

datatype error = TypeError

text \<open>
  \<open>objs\<close> holds the writable objects, \<open>frozen\<close> the read-only ones and \<open>arrays\<close> the
  arrays, an address being an index into its heap. \<open>calls\<close> records
  what the component did to the outside: the argument of every invocation of the
  \<^verbatim>\<open>sourcesChanged\<close> prop, oldest first.
\<close>

record state =
  objs :: "props list"
  frozen :: "props list"
  arrays :: "val list list"
  calls :: "aref list"

definition alloc_obj :: "props \<Rightarrow> state \<Rightarrow> ref \<times> state" where
  "alloc_obj ps s = (length (objs s), s\<lparr>objs := objs s @ [ps]\<rparr>)"

definition alloc_array :: "val list \<Rightarrow> state \<Rightarrow> aref \<times> state" where
  "alloc_array xs s = (length (arrays s), s\<lparr>arrays := arrays s @ [xs]\<rparr>)"

text \<open>
  Reading the array behind the \<^verbatim>\<open>sources\<close> prop, as the spread \<^verbatim>\<open>[...sources]\<close> and
  \<^verbatim>\<open>sources.filter\<close> do. An address that names no array is not iterable and has no
  \<^verbatim>\<open>filter\<close>: a TypeError.
\<close>

definition read_array :: "aref \<Rightarrow> state \<Rightarrow> error + val list" where
  "read_array a s = (if a < length (arrays s) then Inr (arrays s ! a) else Inl TypeError)"

text \<open>Reading a property of an object: an absent property reads as \<^verbatim>\<open>undefined\<close>.\<close>

definition get_prop :: "props \<Rightarrow> string \<Rightarrow> val" where
  "get_prop ps k = (case map_of ps k of None \<Rightarrow> Undefined | Some v \<Rightarrow> v)"

text \<open>
  The member read \<^verbatim>\<open>v.k\<close>. On \<^verbatim>\<open>undefined\<close> it throws. On a string it reads from
  \<^verbatim>\<open>String.prototype\<close>, which has none of the names this component reads
  (\<^verbatim>\<open>searchParameters\<close>, \<^verbatim>\<open>scope\<close>, \<^verbatim>\<open>path\<close>). A reference to no object does not arise
  in a run of the program; the model rejects it like \<^verbatim>\<open>undefined\<close>.
\<close>

definition get_member :: "val \<Rightarrow> string \<Rightarrow> state \<Rightarrow> error + val" where
  "get_member v k s =
     (case v of
        Undefined \<Rightarrow> Inl TypeError
      | Str _ \<Rightarrow> Inr Undefined
      | Ref r \<Rightarrow> if r < length (objs s) then Inr (get_prop (objs s ! r) k) else Inl TypeError
      | Frozen r \<Rightarrow>
          if r < length (frozen s) then Inr (get_prop (frozen s ! r) k) else Inl TypeError)"

text \<open>
  An assignment under the name \<^verbatim>\<open>__proto__\<close> to an object without an own property of
  that name runs the inherited setter, which ignores a value that is no object: nothing
  is written and nothing is thrown. (Given an object it would replace the prototype,
  which is no property either; the component assigns a string under a name it does not
  fix.)
\<close>

definition proto_setter :: "props \<Rightarrow> string \<Rightarrow> bool" where
  "proto_setter ps k = (k = ''__proto__'' \<and> map_of ps k = None)"

text \<open>
  The assignment \<^verbatim>\<open>v[k] = x\<close>, the module being strict code. On a writable object it
  is in place, \<open>assign\<close>: an existing property is overwritten where it stands, a new one
  is added after the others, and the inherited setter writes nothing. On a read-only
  object, on a string and on \<^verbatim>\<open>undefined\<close> it throws, except that on an object and on
  a string the name \<^verbatim>\<open>__proto__\<close> reaches the inherited setter first.
\<close>

definition assign :: "string \<Rightarrow> val \<Rightarrow> props \<Rightarrow> props" where
  "assign k x ps = (if proto_setter ps k then ps else AList.update k x ps)"

definition set_member :: "val \<Rightarrow> string \<Rightarrow> val \<Rightarrow> state \<Rightarrow> error + state" where
  "set_member v k x s =
     (case v of
        Undefined \<Rightarrow> Inl TypeError
      | Str _ \<Rightarrow> if k = ''__proto__'' then Inr s else Inl TypeError
      | Ref r \<Rightarrow>
          if r < length (objs s)
          then Inr (s\<lparr>objs := (objs s)[r := assign k x (objs s ! r)]\<rparr>)
          else Inl TypeError
      | Frozen r \<Rightarrow>
          if r < length (frozen s) \<and> proto_setter (frozen s ! r) k then Inr s
          else Inl TypeError)"

subsection \<open>The Source class\<close>

text \<open>
  Modelled from the spec: the class \<^verbatim>\<open>Source\<close> of \<^verbatim>\<open>models/source\<close>, which the
  component imports and whose declaration is not among the sources. The spec gives a
  Source the fields \<^verbatim>\<open>filename\<close>, \<^verbatim>\<open>searchType\<close>, \<^verbatim>\<open>sourceName\<close>,
  \<^verbatim>\<open>sourceIdentifier\<close>, \<^verbatim>\<open>comment\<close>, a nested \<^verbatim>\<open>searchParameters.scope.path\<close> string
  and one \<^verbatim>\<open>loadConversionScript\<close> value, and calls the constructed one empty and
  default-valued. \<open>new_Source\<close> allocates the two nested objects, an empty script object
  and the record itself, with empty strings.
\<close>

definition new_Source :: "state \<Rightarrow> ref \<times> state" where
  "new_Source s =
     (let (scope, s1) = alloc_obj [(''path'', Str '''')] s;
          (searchParameters, s2) = alloc_obj [(''scope'', Ref scope)] s1;
          (script, s3) = alloc_obj [] s2
      in alloc_obj
           [(''filename'', Str ''''),
            (''searchType'', Str ''''),
            (''sourceName'', Str ''''),
            (''sourceIdentifier'', Str ''''),
            (''searchParameters'', Ref searchParameters),
            (''loadConversionScript'', Ref script),
            (''comment'', Str '''')] s3)"

text \<open>
  A value that refers to a writable object of the heap, and an address that names an
  array.
\<close>

definition is_object :: "state \<Rightarrow> val \<Rightarrow> bool" where
  "is_object s v = (case v of Ref r \<Rightarrow> r < length (objs s) | _ \<Rightarrow> False)"

definition is_array :: "state \<Rightarrow> aref \<Rightarrow> bool" where
  "is_array s a = (a < length (arrays s))"

text \<open>
  Modelled from the spec: the type \<^verbatim>\<open>Source\<close>, as far as the handlers depend on it. A
  Source is a plain record with a nested \<^verbatim>\<open>searchParameters.scope.path\<close>: the value
  refers to a writable object whose \<^verbatim>\<open>searchParameters\<close> refers to a writable object
  whose \<^verbatim>\<open>scope\<close> refers to a writable object.
  The component reads that path of every element of \<^verbatim>\<open>sources\<close> when it displays the
  list.
\<close>

definition is_Source :: "state \<Rightarrow> val \<Rightarrow> bool" where
  "is_Source s v =
     (is_object s v \<and>
      (case get_member v ''searchParameters'' s of
         Inl _ \<Rightarrow> False
       | Inr sp \<Rightarrow>
           is_object s sp \<and>
           (case get_member sp ''scope'' s of
              Inl _ \<Rightarrow> False
            | Inr sc \<Rightarrow> is_object s sc)))"

subsection \<open>The handlers\<close>

text \<open>
  The prop \<^verbatim>\<open>sourcesChanged\<close> belongs to the parent. The component only invokes it;
  the invocation is recorded and returns.
\<close>

definition sourcesChanged :: "aref \<Rightarrow> state \<Rightarrow> state" where
  "sourcesChanged newSources s = s\<lparr>calls := calls s @ [newSources]\<rparr>"

text \<open>
  Each handler closes over the prop \<^verbatim>\<open>sources\<close>, here its first argument. The event
  of an input element is represented by its \<^verbatim>\<open>event.target.value\<close>, a string.
\<close>

definition sourcesChangedHandler :: "aref \<Rightarrow> state \<Rightarrow> error + state" where
  "sourcesChangedHandler sources s =
     (case read_array sources s of
        Inl e \<Rightarrow> Inl e
      | Inr xs \<Rightarrow>
          (let (newSources, s1) = alloc_array xs s
           in Inr (sourcesChanged newSources s1)))"

definition deleteSourceHandler :: "aref \<Rightarrow> val \<Rightarrow> state \<Rightarrow> error + state" where
  "deleteSourceHandler sources source s =
     (case read_array sources s of
        Inl e \<Rightarrow> Inl e
      | Inr xs \<Rightarrow>
          (let (newSources, s1) = alloc_array (filter (\<lambda>x. x \<noteq> source) xs) s
           in Inr (sourcesChanged newSources s1)))"

definition addSourceHandler :: "aref \<Rightarrow> state \<Rightarrow> error + state" where
  "addSourceHandler sources s =
     (case read_array sources s of
        Inl e \<Rightarrow> Inl e
      | Inr xs \<Rightarrow>
          (let (source, s1) = new_Source s;
               (newSources, s2) = alloc_array (xs @ [Ref source]) s1
           in Inr (sourcesChanged newSources s2)))"

definition fieldChangedHandler ::
  "aref \<Rightarrow> string \<Rightarrow> val \<Rightarrow> string \<Rightarrow> state \<Rightarrow> error + state" where
  "fieldChangedHandler sources fieldName source newValue s =
     (case set_member source fieldName (Str newValue) s of
        Inl e \<Rightarrow> Inl e
      | Inr s1 \<Rightarrow> sourcesChangedHandler sources s1)"

definition searchParametersScopePathChangedHandler ::
  "aref \<Rightarrow> val \<Rightarrow> string \<Rightarrow> state \<Rightarrow> error + state" where
  "searchParametersScopePathChangedHandler sources source newValue s =
     (case get_member source ''searchParameters'' s of
        Inl e \<Rightarrow> Inl e
      | Inr sp \<Rightarrow>
          (case get_member sp ''scope'' s of
             Inl e \<Rightarrow> Inl e
           | Inr sc \<Rightarrow>
               (case set_member sc ''path'' (Str newValue) s of
                  Inl e \<Rightarrow> Inl e
                | Inr s1 \<Rightarrow> sourcesChangedHandler sources s1)))"

text \<open>
  The callback given to the nested script editor; \<open>scripts\<close> is the list it reports, and
  \<^verbatim>\<open>scripts[0]\<close> of an empty list is \<^verbatim>\<open>undefined\<close>.
\<close>

definition first_script :: "val list \<Rightarrow> val" where
  "first_script scripts = (case scripts of [] \<Rightarrow> Undefined | x # _ \<Rightarrow> x)"

definition scriptsChanged :: "aref \<Rightarrow> val \<Rightarrow> val list \<Rightarrow> state \<Rightarrow> error + state" where
  "scriptsChanged sources source scripts s =
     (case set_member source ''loadConversionScript'' (first_script scripts) s of
        Inl e \<Rightarrow> Inl e
      | Inr s1 \<Rightarrow> sourcesChangedHandler sources s1)"

text \<open>
  What the panel of a source displays in its scope-path input:
  \<^verbatim>\<open>source.searchParameters.scope.path\<close>.
\<close>

definition scope_of :: "val \<Rightarrow> state \<Rightarrow> error + val" where
  "scope_of source s =
     (case get_member source ''searchParameters'' s of
        Inl e \<Rightarrow> Inl e
      | Inr sp \<Rightarrow> get_member sp ''scope'' s)"

definition scope_path :: "val \<Rightarrow> state \<Rightarrow> error + val" where
  "scope_path source s =
     (case scope_of source s of
        Inl e \<Rightarrow> Inl e
      | Inr sc \<Rightarrow> get_member sc ''path'' s)"

subsection \<open>A list of three sources\<close>

text \<open>
  Two sources with their own nested objects at addresses 2 and 5, and at address 6 a
  shallow copy of the first: equal field for field, a different object.
\<close>

definition example :: state where
  "example =
     \<lparr>objs =
        [[(''path'', Str ''data/a'')],
         [(''scope'', Ref 0)],
         [(''filename'', Str ''a.bib''), (''searchParameters'', Ref 1), (''comment'', Str ''first'')],
         [(''path'', Str ''data/b'')],
         [(''scope'', Ref 3)],
         [(''filename'', Str ''b.bib''), (''searchParameters'', Ref 4), (''comment'', Str ''second'')],
         [(''filename'', Str ''a.bib''), (''searchParameters'', Ref 1), (''comment'', Str ''first'')]],
      frozen = [],
      arrays = [[Ref 2, Ref 5, Ref 6]],
      calls = []\<rparr>"


section \<open>What each handler computes\<close>

subsection \<open>Results on well-formed arguments\<close>

lemma read_array_ok: "is_array s a \<Longrightarrow> read_array a s = Inr (arrays s ! a)"
  by (simp add: read_array_def is_array_def)

lemma sourcesChangedHandler_ok:
  "is_array s sources \<Longrightarrow>
   sourcesChangedHandler sources s =
     Inr (s\<lparr>arrays := arrays s @ [arrays s ! sources], calls := calls s @ [length (arrays s)]\<rparr>)"
  by (simp add: sourcesChangedHandler_def read_array_ok alloc_array_def sourcesChanged_def)

lemma deleteSourceHandler_ok:
  "is_array s sources \<Longrightarrow>
   deleteSourceHandler sources source s =
     Inr (s\<lparr>arrays := arrays s @ [filter (\<lambda>x. x \<noteq> source) (arrays s ! sources)],
            calls := calls s @ [length (arrays s)]\<rparr>)"
  by (simp add: deleteSourceHandler_def read_array_ok alloc_array_def sourcesChanged_def)

lemma new_Source_eq:
  "new_Source s =
     (length (objs s) + 3,
      s\<lparr>objs := objs s @
         [[(''path'', Str '''')],
          [(''scope'', Ref (length (objs s)))],
          [],
          [(''filename'', Str ''''),
           (''searchType'', Str ''''),
           (''sourceName'', Str ''''),
           (''sourceIdentifier'', Str ''''),
           (''searchParameters'', Ref (length (objs s) + 1)),
           (''loadConversionScript'', Ref (length (objs s) + 2)),
           (''comment'', Str '''')]]\<rparr>)"
  by (simp add: new_Source_def alloc_obj_def)

lemma new_Source_arrays: "arrays (snd (new_Source s)) = arrays s"
  and new_Source_calls: "calls (snd (new_Source s)) = calls s"
  by (simp_all add: new_Source_eq)

lemma addSourceHandler_ok:
  "is_array s sources \<Longrightarrow>
   addSourceHandler sources s =
     Inr ((snd (new_Source s))
            \<lparr>arrays := arrays s @ [arrays s ! sources @ [Ref (fst (new_Source s))]],
             calls := calls s @ [length (arrays s)]\<rparr>)"
  by (simp add: addSourceHandler_def read_array_ok alloc_array_def sourcesChanged_def
      split_beta new_Source_arrays new_Source_calls)


lemma set_member_ok:
  "is_object s (Ref r) \<Longrightarrow>
   set_member (Ref r) k x s = Inr (s\<lparr>objs := (objs s)[r := assign k x (objs s ! r)]\<rparr>)"
  by (simp add: set_member_def is_object_def)


lemma fieldChangedHandler_ok:
  "is_array s sources \<Longrightarrow> is_object s (Ref r) \<Longrightarrow>
   fieldChangedHandler sources fieldName (Ref r) newValue s =
     Inr (s\<lparr>objs := (objs s)[r := assign fieldName (Str newValue) (objs s ! r)],
            arrays := arrays s @ [arrays s ! sources],
            calls := calls s @ [length (arrays s)]\<rparr>)"
  by (simp add: fieldChangedHandler_def set_member_ok sourcesChangedHandler_ok is_array_def)


lemma is_Source_object: "is_Source s v \<Longrightarrow> is_object s v"
  by (simp add: is_Source_def)

lemma is_Source_iff:
  "is_Source s source \<longleftrightarrow>
     (\<exists>r p q. source = Ref r \<and> r < length (objs s) \<and>
        get_prop (objs s ! r) ''searchParameters'' = Ref p \<and> p < length (objs s) \<and>
        get_prop (objs s ! p) ''scope'' = Ref q \<and> q < length (objs s))"
  by (auto simp add: is_Source_def is_object_def get_member_def
      split: val.splits if_splits sum.splits)





subsection \<open>Reading after writing\<close>

lemma get_prop_update_same: "get_prop (AList.update k x ps) k = x"
  by (simp add: get_prop_def update_conv')



lemma map_of_assign_other: "k' \<noteq> k \<Longrightarrow> map_of (assign k x ps) k' = map_of ps k'"
  by (simp add: assign_def update_conv')

lemma get_prop_assign_other: "k' \<noteq> k \<Longrightarrow> get_prop (assign k x ps) k' = get_prop ps k'"
  by (simp add: get_prop_def map_of_assign_other)

lemma get_prop_assign_same: "\<not> proto_setter ps k \<Longrightarrow> get_prop (assign k x ps) k = x"
  by (simp add: assign_def get_prop_update_same)


lemma get_member_assign_other:
  assumes "k' \<noteq> k"
  shows "get_member v k' (s\<lparr>objs := (objs s)[q := assign k x (objs s ! q)]\<rparr>) = get_member v k' s"
proof (cases v)
  case (Ref r)
  then show ?thesis
    using assms by (cases "r = q") (simp_all add: get_member_def get_prop_assign_other)
qed (simp_all add: get_member_def)







subsection \<open>The constructed Source\<close>

lemma new_Source_is_Source:
  "is_Source (snd (new_Source s)\<lparr>arrays := as, calls := cs\<rparr>) (Ref (fst (new_Source s)))"
  by (simp add: new_Source_eq is_Source_def is_object_def get_member_def get_prop_def
      nth_append)

lemma new_Source_defaults:
  "objs s' = objs (snd (new_Source s)) \<Longrightarrow>
   scope_path (Ref (fst (new_Source s))) s' = Inr (Str '''') \<and>
   (\<forall>k \<in> {''filename'', ''searchType'', ''sourceName'', ''sourceIdentifier'', ''comment''}.
      get_member (Ref (fst (new_Source s))) k s' = Inr (Str ''''))"
  by (simp add: new_Source_eq scope_path_def scope_of_def get_member_def get_prop_def
      nth_append)

subsection \<open>Sources stay Sources\<close>

text \<open>
  No handler turns a Source into something else, as long as the field edit is given
  neither \<^verbatim>\<open>searchParameters\<close> nor \<^verbatim>\<open>scope\<close> as field name; the component gives it
  \<^verbatim>\<open>filename\<close>, \<^verbatim>\<open>searchType\<close>, \<^verbatim>\<open>sourceName\<close>, \<^verbatim>\<open>sourceIdentifier\<close> and
  \<^verbatim>\<open>comment\<close>.
\<close>

lemma is_object_cong: "length (objs s1) = length (objs s2) \<Longrightarrow> is_object s1 v = is_object s2 v"
  by (cases v) (simp_all add: is_object_def)

lemma is_Source_cong: "objs s1 = objs s2 \<Longrightarrow> is_Source s1 v = is_Source s2 v"
  by (simp add: is_Source_iff)

lemma sourcesChangedHandler_objs: "sourcesChangedHandler sources s = Inr s' \<Longrightarrow> objs s' = objs s"
  by (auto simp add: sourcesChangedHandler_def alloc_array_def sourcesChanged_def
      split: sum.splits)

lemma set_member_objs:
  assumes "set_member t k x s = Inr s1"
  shows "objs s1 = objs s \<or> (\<exists>r. objs s1 = (objs s)[r := assign k x (objs s ! r)])"
  using assms by (cases t) (auto simp add: set_member_def split: if_splits)

lemma set_member_keeps_Source:
  assumes "set_member t k x s = Inr s1" and "k \<noteq> ''searchParameters''" and "k \<noteq> ''scope''"
  shows "is_Source s1 v = is_Source s v"
proof -
  from set_member_objs [OF assms(1)] consider
    "objs s1 = objs s" | r where "objs s1 = (objs s)[r := assign k x (objs s ! r)]"
    by blast
  then show ?thesis
  proof cases
    case 1
    then show ?thesis
      by (rule is_Source_cong)
  next
    case 2
    have "get_prop (objs s1 ! w) k' = get_prop (objs s ! w) k'"
      if "k' \<noteq> k" and "w < length (objs s)" for w k'
      using that unfolding 2 by (cases "w = r") (simp_all add: get_prop_assign_other)
    moreover have "length (objs s1) = length (objs s)"
      unfolding 2 by simp
    ultimately show ?thesis
      using assms(2,3) unfolding is_Source_iff by (metis (no_types, lifting))
  qed
qed

lemma get_member_append:
  "is_object s v \<Longrightarrow> get_member v k (s\<lparr>objs := objs s @ ps\<rparr>) = get_member v k s"
  by (cases v) (simp_all add: is_object_def get_member_def nth_append)

lemma is_object_append: "is_object s v \<Longrightarrow> is_object (s\<lparr>objs := objs s @ ps\<rparr>) v"
  by (cases v) (simp_all add: is_object_def)

lemma append_keeps_Source:
  assumes "is_Source s v"
  shows "is_Source (s\<lparr>objs := objs s @ ps\<rparr>) v"
proof -
  from assms obtain sp sc where
    v: "is_object s v" "get_member v ''searchParameters'' s = Inr sp"
    and sp: "is_object s sp" "get_member sp ''scope'' s = Inr sc"
    and sc: "is_object s sc"
    by (auto simp add: is_Source_def split: sum.splits)
  show ?thesis
    using v sp sc by (simp add: is_Source_def get_member_append is_object_append)
qed

lemma handlers_keep_Sources:
  assumes "is_Source s v"
  shows "addSourceHandler sources s = Inr s' \<Longrightarrow> is_Source s' v"
    and "deleteSourceHandler sources target s = Inr s' \<Longrightarrow> is_Source s' v"
    and "fieldChangedHandler sources fieldName source newValue s = Inr s' \<Longrightarrow>
           fieldName \<noteq> ''searchParameters'' \<Longrightarrow> fieldName \<noteq> ''scope'' \<Longrightarrow> is_Source s' v"
    and "scriptsChanged sources source scripts s = Inr s' \<Longrightarrow> is_Source s' v"
    and "searchParametersScopePathChangedHandler sources source newValue s = Inr s' \<Longrightarrow>
           is_Source s' v"
proof -
  show "is_Source s' v" if "addSourceHandler sources s = Inr s'"
  proof -
    from that have "objs s' = objs (snd (new_Source s))"
      by (auto simp add: addSourceHandler_def alloc_array_def sourcesChanged_def split_beta
          split: sum.splits)
    then have "is_Source s' v = is_Source (snd (new_Source s)) v"
      by (rule is_Source_cong)
    then show ?thesis
      using append_keeps_Source [OF assms] by (simp add: new_Source_eq)
  qed
  show "is_Source s' v" if "deleteSourceHandler sources target s = Inr s'"
  proof -
    from that have "objs s' = objs s"
      by (auto simp add: deleteSourceHandler_def alloc_array_def sourcesChanged_def
          split: sum.splits)
    then show ?thesis
      using assms by (simp add: is_Source_cong [of s' s])
  qed
  show "is_Source s' v"
    if "fieldChangedHandler sources fieldName source newValue s = Inr s'"
      and "fieldName \<noteq> ''searchParameters''" and "fieldName \<noteq> ''scope''"
  proof -
    from that(1) obtain s1 where
      "set_member source fieldName (Str newValue) s = Inr s1" "objs s' = objs s1"
      by (auto simp add: fieldChangedHandler_def split: sum.splits
          dest: sourcesChangedHandler_objs)
    then show ?thesis
      using assms that(2,3) set_member_keeps_Source [of source fieldName _ s s1 v]
      by (simp add: is_Source_cong [of s' s1])
  qed
  show "is_Source s' v" if "scriptsChanged sources source scripts s = Inr s'"
  proof -
    from that obtain s1 where
      "set_member source ''loadConversionScript'' (first_script scripts) s = Inr s1"
      "objs s' = objs s1"
      by (auto simp add: scriptsChanged_def split: sum.splits dest: sourcesChangedHandler_objs)
    then show ?thesis
      using assms set_member_keeps_Source [of source "''loadConversionScript''" _ s s1 v]
      by (simp add: is_Source_cong [of s' s1])
  qed
  show "is_Source s' v"
    if "searchParametersScopePathChangedHandler sources source newValue s = Inr s'"
  proof -
    from that obtain sc s1 where
      "set_member sc ''path'' (Str newValue) s = Inr s1" "objs s' = objs s1"
      by (auto simp add: searchParametersScopePathChangedHandler_def split: sum.splits
          dest: sourcesChangedHandler_objs)
    then show ?thesis
      using assms set_member_keeps_Source [of sc "''path''" _ s s1 v]
      by (simp add: is_Source_cong [of s' s1])
  qed
qed

subsection \<open>When an assignment returns\<close>








subsection \<open>The example\<close>

lemma example_facts:
  "is_array example 0"
  "is_object example (Ref 2)"
  "is_Source example (Ref 2)"
  "arrays example ! 0 = [Ref 2, Ref 5, Ref 6]"
  "calls example = []"
  "length (arrays example) = 1"
  "length (objs example) = 7"
  by (simp_all add: is_array_def is_Source_def is_object_def get_member_def get_prop_def
      example_def)

section \<open>Properties of the handlers\<close>

subsection \<open>Deleting a source\<close>

text \<open>
  C1. Given the array of sources, the delete handler returns, having invoked the callback
  with an array that holds the elements other than the targeted one, in their order: the
  target is not in it, every other element is, it is a subsequence of the input, and
  where the target stands at one place of the input the result is the input without
  that place.
\<close>

theorem delete_removes_target:
  assumes "is_array s sources"
  shows "\<exists>s'. deleteSourceHandler sources source s = Inr s' \<and>
           calls s' = calls s @ [length (arrays s)] \<and>
           objs s' = objs s \<and>
           arrays s' ! length (arrays s) = filter (\<lambda>x. x \<noteq> source) (arrays s ! sources) \<and>
           source \<notin> set (arrays s' ! length (arrays s)) \<and>
           set (arrays s' ! length (arrays s)) = set (arrays s ! sources) - {source} \<and>
           subseq (arrays s' ! length (arrays s)) (arrays s ! sources) \<and>
           (\<forall>ys zs. arrays s ! sources = ys @ source # zs \<and> source \<notin> set ys \<and> source \<notin> set zs
              \<longrightarrow> arrays s' ! length (arrays s) = ys @ zs)"
proof -
  let ?xs = "arrays s ! sources"
  let ?s' = "s\<lparr>arrays := arrays s @ [filter (\<lambda>x. x \<noteq> source) ?xs],
               calls := calls s @ [length (arrays s)]\<rparr>"
  have run: "deleteSourceHandler sources source s = Inr ?s'"
    using assms by (rule deleteSourceHandler_ok)
  have order: "subseq (filter (\<lambda>x. x \<noteq> source) ?xs) ?xs"
    by simp
  have one: "filter (\<lambda>x. x \<noteq> source) (ys @ source # zs) = ys @ zs"
    if "source \<notin> set ys" "source \<notin> set zs" for ys zs
  proof -
    have "filter (\<lambda>x. x \<noteq> source) ys = ys" "filter (\<lambda>x. x \<noteq> source) zs = zs"
      using that by (auto simp add: filter_id_conv)
    then show ?thesis by simp
  qed
  show ?thesis
    unfolding run using order one by (intro exI [of _ ?s']) auto
qed

theorem delete_removes_target_witness:
  "is_array example 0 \<and>
   (\<exists>s'. deleteSourceHandler 0 (Ref 5) example = Inr s' \<and>
      calls s' = [1] \<and> arrays s' ! 1 = [Ref 2, Ref 6] \<and> Ref 5 \<notin> set (arrays s' ! 1) \<and>
      objs s' = objs example)"
  using delete_removes_target [OF example_facts(1), of "Ref 5"]
  by (auto simp add: example_facts)

text \<open>
  C5. Deletion compares addresses, not fields. The array handed to the callback is the
  input without the elements equal to the target, and two references are equal when they
  are the same address: the target is not in the array, and a record of the list at
  another address is in it, as many times as it was in the input, whatever its fields,
  so also when they equal the target's. What the objects hold has no part in it: with
  any other contents of the heap the callback gets the same array.
\<close>

theorem delete_by_reference:
  assumes "is_array s sources"
    and "Ref r \<in> set (arrays s ! sources)"
    and "r \<noteq> t"
  shows "\<exists>s'. deleteSourceHandler sources (Ref t) s = Inr s' \<and>
           calls s' = calls s @ [length (arrays s)] \<and>
           arrays s' ! length (arrays s) = filter (\<lambda>x. x \<noteq> Ref t) (arrays s ! sources) \<and>
           Ref t \<notin> set (arrays s' ! length (arrays s)) \<and>
           Ref r \<in> set (arrays s' ! length (arrays s)) \<and>
           count_list (arrays s' ! length (arrays s)) (Ref r) =
             count_list (arrays s ! sources) (Ref r) \<and>
           (\<forall>h f. \<exists>s''. deleteSourceHandler sources (Ref t) (s\<lparr>objs := h, frozen := f\<rparr>) = Inr s'' \<and>
                  arrays s'' = arrays s')"
proof -
  have count: "count_list (filter (\<lambda>x. x \<noteq> Ref t) xs) (Ref r) = count_list xs (Ref r)" for xs
    using assms(3) by (induction xs) simp_all
  have any_heap: "is_array (s\<lparr>objs := h, frozen := f\<rparr>) sources" for h f
    using assms(1) by (simp add: is_array_def)
  show ?thesis
    using assms(2,3) count
    by (simp add: deleteSourceHandler_ok [OF assms(1)] deleteSourceHandler_ok [OF any_heap])
qed

theorem delete_by_reference_witness:
  "is_array example 0 \<and> Ref 6 \<in> set (arrays example ! 0) \<and> (6::nat) \<noteq> 2 \<and>
   objs example ! 6 = objs example ! 2 \<and>
   (\<exists>s'. deleteSourceHandler 0 (Ref 2) example = Inr s' \<and>
      calls s' = [1] \<and> arrays s' ! 1 = [Ref 5, Ref 6] \<and>
      Ref 2 \<notin> set (arrays s' ! 1) \<and> Ref 6 \<in> set (arrays s' ! 1))"
proof -
  have eq: "objs example ! 6 = objs example ! 2"
    by (simp add: example_def)
  have mem: "Ref 6 \<in> set (arrays example ! 0)"
    by (simp add: example_facts)
  have neq: "(6::nat) \<noteq> 2"
    by simp
  from delete_by_reference [OF example_facts(1) mem neq] show ?thesis
    by (auto simp add: example_facts eq)
qed

text \<open>
  C9. When the target is no element of the list, the delete handler still returns and
  invokes the callback, with a new array that holds the elements of the input in their
  order; the input array and the objects are as before.
\<close>

theorem delete_absent_target:
  assumes "is_array s sources" and "source \<notin> set (arrays s ! sources)"
  shows "\<exists>s'. deleteSourceHandler sources source s = Inr s' \<and>
           calls s' = calls s @ [length (arrays s)] \<and>
           length (arrays s) \<noteq> sources \<and>
           arrays s' ! length (arrays s) = arrays s ! sources \<and>
           arrays s' ! sources = arrays s ! sources \<and>
           objs s' = objs s"
proof -
  have "filter (\<lambda>x. x \<noteq> source) (arrays s ! sources) = arrays s ! sources"
    using assms(2) by (auto simp add: filter_id_conv)
  then show ?thesis
    using assms(1)
    by (simp add: deleteSourceHandler_ok [OF assms(1)] is_array_def nth_append)
qed

theorem delete_absent_target_witness:
  "is_array example 0 \<and> Ref 0 \<notin> set (arrays example ! 0) \<and>
   (\<exists>s'. deleteSourceHandler 0 (Ref 0) example = Inr s' \<and>
      calls s' = [1] \<and> arrays s' ! 1 = [Ref 2, Ref 5, Ref 6])"
proof -
  have absent: "Ref 0 \<notin> set (arrays example ! 0)"
    by (simp add: example_facts)
  from delete_absent_target [OF example_facts(1) absent] show ?thesis
    by (auto simp add: example_facts)
qed

subsection \<open>Adding a source\<close>

text \<open>
  C3. The add handler returns, having invoked the callback with an array that holds the
  elements of the input in their order, followed by one more: the reference to the Source
  the constructor has just made. That object did not exist before (so no element of the
  input that refers to an object is equal to it), the objects that existed are as
  before, and it is a Source with the constructor's empty values.
\<close>

theorem add_appends_new_source:
  assumes "is_array s sources"
  shows "\<exists>s' new. addSourceHandler sources s = Inr s' \<and>
           new = fst (new_Source s) \<and>
           objs s' = objs (snd (new_Source s)) \<and>
           calls s' = calls s @ [length (arrays s)] \<and>
           arrays s' ! length (arrays s) = arrays s ! sources @ [Ref new] \<and>
           length (objs s) \<le> new \<and> new < length (objs s') \<and>
           (\<forall>v \<in> set (arrays s ! sources). is_object s v \<longrightarrow> v \<noteq> Ref new) \<and>
           (\<forall>r < length (objs s). objs s' ! r = objs s ! r) \<and>
           is_Source s' (Ref new) \<and>
           scope_path (Ref new) s' = Inr (Str '''') \<and>
           (\<forall>k \<in> {''filename'', ''searchType'', ''sourceName'', ''sourceIdentifier'', ''comment''}.
              get_member (Ref new) k s' = Inr (Str ''''))"
proof -
  let ?new = "fst (new_Source s)"
  let ?s' = "(snd (new_Source s))
               \<lparr>arrays := arrays s @ [arrays s ! sources @ [Ref ?new]],
                calls := calls s @ [length (arrays s)]\<rparr>"
  have run: "addSourceHandler sources s = Inr ?s'"
    using assms by (rule addSourceHandler_ok)
  have heap: "objs ?s' = objs (snd (new_Source s))"
    by simp
  have fresh: "length (objs s) \<le> ?new" "?new < length (objs ?s')"
    "\<forall>r < length (objs s). objs ?s' ! r = objs s ! r"
    by (simp_all add: new_Source_eq nth_append)
  have distinct: "\<forall>v \<in> set (arrays s ! sources). is_object s v \<longrightarrow> v \<noteq> Ref ?new"
    using fresh(1) by (auto simp add: is_object_def)
  have out: "calls ?s' = calls s @ [length (arrays s)]"
    "arrays ?s' ! length (arrays s) = arrays s ! sources @ [Ref ?new]"
    by simp_all
  show ?thesis
    using run heap fresh distinct out new_Source_is_Source [of _ _ s] new_Source_defaults [OF heap]
    by blast
qed

theorem add_appends_new_source_witness:
  "is_array example 0 \<and>
   (\<exists>s'. addSourceHandler 0 example = Inr s' \<and>
      calls s' = [1] \<and>
      arrays s' ! 1 = [Ref 2, Ref 5, Ref 6, Ref 10] \<and>
      is_object example (Ref 2) \<and> Ref 2 \<noteq> Ref 10 \<and>
      objs s' ! 2 = objs example ! 2 \<and>
      get_member (Ref 10) ''filename'' s' = Inr (Str ''''))"
proof -
  have new: "fst (new_Source example) = 10"
    by (simp add: new_Source_eq example_facts)
  from add_appends_new_source [OF example_facts(1)] show ?thesis
    by (auto simp add: new example_facts)
qed

subsection \<open>Editing a field\<close>

text \<open>
  C2, as amended. For every array of sources, writable record, field name and input
  string, the field-edit handler returns with every other field of the record and every
  other object as before, and the callback invoked with a new array that holds the
  elements of the input array, which itself stays as it was. The field named holds the
  input string afterwards unless the name is \<^verbatim>\<open>__proto__\<close> and the record has no own
  property of that name: then the inherited setter takes the string and no object
  changes.
\<close>

theorem field_edit_frame:
  assumes "is_array s sources" and "is_object s (Ref r)"
  shows "\<exists>s'. fieldChangedHandler sources fieldName (Ref r) newValue s = Inr s' \<and>
           (\<not> proto_setter (objs s ! r) fieldName \<longrightarrow>
              get_prop (objs s' ! r) fieldName = Str newValue) \<and>
           (proto_setter (objs s ! r) fieldName \<longrightarrow> objs s' = objs s) \<and>
           (\<forall>k. k \<noteq> fieldName \<longrightarrow> map_of (objs s' ! r) k = map_of (objs s ! r) k) \<and>
           length (objs s') = length (objs s) \<and>
           (\<forall>r'. r' \<noteq> r \<longrightarrow> objs s' ! r' = objs s ! r') \<and>
           frozen s' = frozen s \<and>
           calls s' = calls s @ [length (arrays s)] \<and>
           length (arrays s') = length (arrays s) + 1 \<and>
           arrays s' ! length (arrays s) = arrays s ! sources \<and>
           (\<forall>a < length (arrays s). arrays s' ! a = arrays s ! a)"
proof -
  from assms(2) have r: "r < length (objs s)"
    by (simp add: is_object_def)
  have same: "(objs s)[r := assign fieldName (Str newValue) (objs s ! r)] = objs s"
    if "proto_setter (objs s ! r) fieldName"
    using that by (simp add: assign_def)
  show ?thesis
    unfolding fieldChangedHandler_ok [OF assms]
    using r same by (simp add: get_prop_assign_same map_of_assign_other nth_append)
qed

theorem field_edit_frame_witness:
  "is_array example 0 \<and> is_object example (Ref 2) \<and>
   \<not> proto_setter (objs example ! 2) ''filename'' \<and>
   (\<exists>s'. fieldChangedHandler 0 ''filename'' (Ref 2) ''c.bib'' example = Inr s' \<and>
      get_prop (objs s' ! 2) ''filename'' = Str ''c.bib'' \<and>
      map_of (objs s' ! 2) ''comment'' = Some (Str ''first'') \<and>
      objs s' ! 6 = objs example ! 6 \<and>
      calls s' = [1] \<and> arrays s' ! 1 = [Ref 2, Ref 5, Ref 6] \<and>
      arrays s' ! 0 = [Ref 2, Ref 5, Ref 6]) \<and>
   proto_setter (objs example ! 2) ''__proto__'' \<and>
   (\<exists>s'. fieldChangedHandler 0 ''__proto__'' (Ref 2) ''x'' example = Inr s' \<and>
      objs s' = objs example \<and> calls s' = [1])"
proof -
  have old: "\<not> proto_setter (objs example ! 2) ''filename''"
    "proto_setter (objs example ! 2) ''__proto__''"
    "map_of (objs example ! 2) ''comment'' = Some (Str ''first'')"
    by (simp_all add: proto_setter_def example_def)
  from field_edit_frame [OF example_facts(1,2), of "''filename''" "''c.bib''"]
    field_edit_frame [OF example_facts(1,2), of "''__proto__''" "''x''"]
  show ?thesis
    by (auto simp add: example_facts old)
qed

text \<open>
  C2 as stated fails at the field name \<^verbatim>\<open>__proto__\<close>: on the first record of the
  example the handler returns, with the callback invoked, and the record has no such
  field afterwards.
\<close>

theorem field_edit_proto_counterexample:
  "fieldChangedHandler 0 ''__proto__'' (Ref 2) ''x'' example =
     Inr (example\<lparr>arrays := [[Ref 2, Ref 5, Ref 6], [Ref 2, Ref 5, Ref 6]], calls := [1]\<rparr>) \<and>
   get_prop
     (objs (example\<lparr>arrays := [[Ref 2, Ref 5, Ref 6], [Ref 2, Ref 5, Ref 6]], calls := [1]\<rparr>) ! 2)
     ''__proto__'' = Undefined \<and>
   Undefined \<noteq> Str ''x''"
  by (simp add: fieldChangedHandler_def set_member_def sourcesChangedHandler_def
      read_array_def alloc_array_def sourcesChanged_def assign_def proto_setter_def
      get_prop_def example_def)






subsection \<open>All five handlers\<close>








end
